theory Spec2Isabelle
  imports Main
begin

section \<open>The OTP verification modal (frontend/components/OTPModal.tsx)\<close>

text \<open>
  A JavaScript string is modelled as a HOL \<open>string\<close>: one \<open>char\<close> per code unit,
  \<open>length\<close> for \<open>.length\<close>. The texts modelled are those of code units below 256.

  The component's React state is the record \<open>otp_modal\<close>: the five \<open>useState\<close> cells
  (\<open>otp\<close>, \<open>loading\<close>, \<open>error\<close>, \<open>countdown\<close>, \<open>canResend\<close>), the \<open>isOpen\<close> prop the
  parent passes, the one-shot timeout the countdown effect has scheduled (\<open>timer\<close>, holding
  the value its callback will pass to \<open>setCountdown\<close>), and the asynchronous handler that is
  suspended at its \<open>await\<close> (\<open>pending\<close>).
\<close>

datatype pending_call = VerifyCall string | ResendCall

record otp_modal =
  isOpen :: bool
  otp :: string
  loading :: bool
  error :: string
  countdown :: int
  canResend :: bool
  timer :: "int option"
  pending :: "pending_call option"

text \<open>
  The outcome of an awaited promise: it resolves, or it rejects with an object whose
  \<open>message\<close> property is a string or is missing (\<open>None\<close>).
\<close>

datatype outcome = Resolved | Rejected "string option"

text \<open>\<open>err.message || fallback\<close>: a missing or empty message is falsy.\<close>

definition message_or :: "string option \<Rightarrow> string \<Rightarrow> string" where
  "message_or m fallback =
     (case m of None \<Rightarrow> fallback | Some t \<Rightarrow> if t = [] then fallback else t)"

subsection \<open>The countdown effect\<close>

text \<open>
  \<open>useEffect(..., [countdown, isOpen])\<close>. Before the body runs, React runs the cleanup the
  previous run returned, which clears the timeout. The body: closed, reset the countdown;
  open with \<open>countdown > 0\<close>, schedule \<open>setCountdown(countdown - 1)\<close>; open otherwise, enable
  the resend.
\<close>

definition countdown_effect :: "otp_modal \<Rightarrow> otp_modal" where
  "countdown_effect s =
     (let s0 = s\<lparr>timer := None\<rparr> in
      if \<not> isOpen s0 then s0\<lparr>countdown := 60, canResend := False\<rparr>
      else if countdown s0 > 0 then s0\<lparr>timer := Some (countdown s0 - 1)\<rparr>
      else s0\<lparr>canResend := True\<rparr>)"

text \<open>
  A render commits the state \<open>s\<close> after the state \<open>prev\<close>. The effect runs when one of its
  dependencies changed, and once more when its own \<open>setCountdown(60)\<close> changed the countdown.
\<close>

definition commit :: "otp_modal \<Rightarrow> otp_modal \<Rightarrow> otp_modal" where
  "commit prev s =
     (if countdown s \<noteq> countdown prev \<or> isOpen s \<noteq> isOpen prev then
        (let s1 = countdown_effect s in
         if countdown s1 \<noteq> countdown s then countdown_effect s1 else s1)
      else s)"

text \<open>The component as mounted: the initial \<open>useState\<close> values, then the effect's first run.\<close>

definition mount :: "bool \<Rightarrow> otp_modal" where
  "mount open_prop =
     countdown_effect
       \<lparr>isOpen = open_prop, otp = [], loading = False, error = [], countdown = 60,
        canResend = False, timer = None, pending = None\<rparr>"

subsection \<open>The handlers\<close>

text \<open>\<open>\D\<close> matches every code unit that is not one of \<open>0\<close> .. \<open>9\<close>.\<close>

definition is_digit :: "char \<Rightarrow> bool" where
  "is_digit c = (c \<in> set ''0123456789'')"

text \<open>\<open>handleOTPChange\<close>, given \<open>e.target.value\<close>.\<close>

definition handleOTPChange :: "string \<Rightarrow> otp_modal \<Rightarrow> otp_modal" where
  "handleOTPChange target_value s =
     (let v = filter is_digit target_value in
      if length v \<le> 6 then s\<lparr>otp := v, error := []\<rparr> else s)"

text \<open>
  \<open>handleVerify\<close> up to its \<open>await\<close>: the new state, and the code \<open>onVerify\<close> was called
  with (\<open>None\<close> when it was not called).
\<close>

definition handleVerify_begin :: "otp_modal \<Rightarrow> otp_modal \<times> string option" where
  "handleVerify_begin s =
     (if length (otp s) \<noteq> 6 then (s\<lparr>error := ''Please enter a 6-digit OTP''\<rparr>, None)
      else (s\<lparr>loading := True, error := []\<rparr>, Some (otp s)))"

text \<open>\<open>handleVerify\<close> after its \<open>await\<close>: the \<open>catch\<close> and the \<open>finally\<close>.\<close>

definition handleVerify_end :: "outcome \<Rightarrow> otp_modal \<Rightarrow> otp_modal" where
  "handleVerify_end r s =
     (case r of
        Resolved \<Rightarrow> s\<lparr>loading := False\<rparr>
      | Rejected m \<Rightarrow>
          s\<lparr>error := message_or m ''Invalid OTP. Please try again.'', loading := False\<rparr>)"

text \<open>
  \<open>handleVerify\<close> run to its end with nothing else in between: the final state and the list
  of the codes \<open>onVerify\<close> was called with.
\<close>

definition handleVerify :: "(string \<Rightarrow> outcome) \<Rightarrow> otp_modal \<Rightarrow> otp_modal \<times> string list" where
  "handleVerify onVerify s =
     (case handleVerify_begin s of
        (s1, None) \<Rightarrow> (s1, [])
      | (s1, Some code) \<Rightarrow> (handleVerify_end (onVerify code) s1, [code]))"

text \<open>\<open>handleResend\<close> up to its \<open>await\<close>, and after it.\<close>

definition handleResend_begin :: "otp_modal \<Rightarrow> otp_modal" where
  "handleResend_begin s = s\<lparr>loading := True, error := []\<rparr>"

definition handleResend_end :: "outcome \<Rightarrow> otp_modal \<Rightarrow> otp_modal" where
  "handleResend_end r s =
     (case r of
        Resolved \<Rightarrow>
          s\<lparr>countdown := 60, canResend := False, otp := [], error := [], loading := False\<rparr>
      | Rejected m \<Rightarrow> s\<lparr>error := message_or m ''Failed to resend OTP'', loading := False\<rparr>)"

text \<open>
  \<open>handleResend\<close> run to its end with nothing else in between, the render it causes
  committed; \<open>resendOTP\<close> is the outcome of \<open>authAPI.resendOTP(email, purpose)\<close>.
\<close>

definition handleResend :: "outcome \<Rightarrow> otp_modal \<Rightarrow> otp_modal" where
  "handleResend resendOTP s = commit s (handleResend_end resendOTP (handleResend_begin s))"

subsection \<open>The events of the modal\<close>

text \<open>
  One step is one event with the renders and effect runs it causes. The parent opens and
  closes the modal; the timeout fires; the user edits the field (its \<open>maxLength\<close> is 6),
  clicks Verify or presses Enter (both need six characters, and the controls are disabled
  while \<open>loading\<close>), clicks Resend (rendered only when \<open>canResend\<close>); an awaited call
  completes. Nothing is rendered while the modal is closed. An event that cannot happen in
  a state leaves it as it is.
\<close>

datatype event =
  Open | Close | Tick | Edit string | VerifyClick | KeyEnter | VerifyDone outcome
  | ResendClick | ResendDone outcome

definition start_verify :: "otp_modal \<Rightarrow> otp_modal" where
  "start_verify s =
     (case handleVerify_begin s of
        (s1, None) \<Rightarrow> s1
      | (s1, Some code) \<Rightarrow> s1\<lparr>pending := Some (VerifyCall code)\<rparr>)"

fun step :: "event \<Rightarrow> otp_modal \<Rightarrow> otp_modal" where
  "step Open s = (if isOpen s then s else commit s (s\<lparr>isOpen := True\<rparr>))"
| "step Close s = (if isOpen s then commit s (s\<lparr>isOpen := False\<rparr>) else s)"
| "step Tick s =
     (case timer s of
        None \<Rightarrow> s
      | Some k \<Rightarrow> commit s (s\<lparr>countdown := k, timer := None\<rparr>))"
| "step (Edit v) s =
     (if isOpen s \<and> \<not> loading s \<and> length v \<le> 6 then handleOTPChange v s else s)"
| "step VerifyClick s =
     (if isOpen s \<and> \<not> loading s \<and> length (otp s) = 6 then start_verify s else s)"
| "step KeyEnter s =
     (if isOpen s \<and> \<not> loading s \<and> length (otp s) = 6 then start_verify s else s)"
| "step (VerifyDone r) s =
     (case pending s of
        Some (VerifyCall code) \<Rightarrow> handleVerify_end r (s\<lparr>pending := None\<rparr>)
      | _ \<Rightarrow> s)"
| "step ResendClick s =
     (if isOpen s \<and> canResend s \<and> \<not> loading s
      then (handleResend_begin s)\<lparr>pending := Some ResendCall\<rparr> else s)"
| "step (ResendDone r) s =
     (case pending s of
        Some ResendCall \<Rightarrow> commit s (handleResend_end r (s\<lparr>pending := None\<rparr>))
      | _ \<Rightarrow> s)"

text \<open>The state after a sequence of events, the first event first.\<close>

fun run :: "event list \<Rightarrow> otp_modal \<Rightarrow> otp_modal" where
  "run [] s = s"
| "run (e # es) s = run es (step e s)"

text \<open>What holds of every state the modal reaches.\<close>

definition modal_inv :: "otp_modal \<Rightarrow> bool" where
  "modal_inv s =
     ((canResend s = (countdown s = 0)) \<and> 0 \<le> countdown s \<and> countdown s \<le> 60
      \<and> (isOpen s \<or> countdown s = 60)
      \<and> (case timer s of None \<Rightarrow> \<not> isOpen s \<or> countdown s = 0
          | Some k \<Rightarrow> isOpen s \<and> k = countdown s - 1 \<and> 0 < countdown s))"

section \<open>The API module (frontend/lib/api.ts)\<close>

subsection \<open>JavaScript values\<close>

text \<open>
  What \<open>response.json()\<close> and \<open>JSON.parse\<close> return. A number is held as the text
  \<open>Number::toString\<close> gives it (\<open>0\<close> for both zeros); an object lists each member once.
\<close>

datatype json =
  JNull | JBool bool | JNum string | JStr string | JArr "json list"
  | JObj "(string \<times> json) list"

text \<open>What a \<open>catch\<close> can see: \<open>new Error(message)\<close>, the \<open>TypeError\<close> of reading the named
  property of \<open>null\<close>, the \<open>TypeError\<close> of converting to a text an object that has no
  primitive value, or a failure the platform raised (\<open>fetch\<close>, \<open>response.json()\<close>,
  \<open>JSON.parse\<close>).\<close>

datatype 'e thrown = JsError string | JsTypeError string | JsNoPrimitive | Raised 'e

text \<open>\<open>!!v\<close>; the value \<open>undefined\<close> is \<open>None\<close>.\<close>

fun truthy :: "json \<Rightarrow> bool" where
  "truthy JNull = False"
| "truthy (JBool b) = b"
| "truthy (JNum n) = (n \<noteq> ''0'' \<and> n \<noteq> ''NaN'')"
| "truthy (JStr t) = (t \<noteq> [])"
| "truthy (JArr vs) = True"
| "truthy (JObj ms) = True"

text \<open>\<open>xs.join(sep)\<close> on texts.\<close>

fun join :: "string \<Rightarrow> string list \<Rightarrow> string" where
  "join sep [] = []"
| "join sep [x] = x"
| "join sep (x # y # ys) = x @ sep @ join sep (y # ys)"

text \<open>
  \<open>String(v)\<close>, the message \<open>new Error(v)\<close> gets; \<open>None\<close> when the conversion throws its
  \<open>TypeError\<close>. An array joins the texts of its elements with a comma, \<open>null\<close> elements as the
  empty text. An object is converted by its \<open>toString\<close>, then its \<open>valueOf\<close>: a member of its
  own named \<open>toString\<close> is no function and hides the inherited one, \<open>valueOf\<close> gives no
  primitive, and the conversion throws; without such a member the inherited \<open>toString\<close>
  gives \<open>[object Object]\<close>.
\<close>

fun ToString :: "json \<Rightarrow> string option" where
  "ToString JNull = Some ''null''"
| "ToString (JBool b) = Some (if b then ''true'' else ''false'')"
| "ToString (JNum n) = Some n"
| "ToString (JStr t) = Some t"
| "ToString (JArr vs) =
     map_option (join '','') (those (map (\<lambda>v. if v = JNull then Some [] else ToString v) vs))"
| "ToString (JObj ms) =
     (if map_of ms ''toString'' = None then Some ''[object Object]'' else None)"

text \<open>\<open>data.detail\<close>, \<open>data.message\<close>: reading a property of \<open>null\<close> throws; an object gives
  its member; no other JSON value has a property of either name.\<close>

definition get_property :: "json \<Rightarrow> string \<Rightarrow> 'e thrown + json option" where
  "get_property data p =
     (case data of
        JNull \<Rightarrow> Inl (JsTypeError p)
      | JObj ms \<Rightarrow> Inr (map_of ms p)
      | _ \<Rightarrow> Inr None)"

subsection \<open>Cookies\<close>

text \<open>
  The browser's cookie store for the page, after RFC 6265 (sections 5.2 to 5.4): the
  cookies of one host and of path \<open>/\<close>, in creation order, each a name and a value.
  Of the attributes of an assigned text only the expiry is modelled, and it is given to
  the store, not read from the text. So the model is that of the store for the texts
  whose attributes are the module's own, that is for values written without a \<open>;\<close>. A
  value with a \<open>;\<close> puts text of its own ahead of the module's attributes (a \<open>Max-Age\<close>, an
  \<open>HttpOnly\<close>, a \<open>Domain\<close>), which the store reads and this model does not: there it gives
  the part of the value before the \<open>;\<close> as stored, and the store may keep no cookie.
\<close>

type_synonym cookie_jar = "(string \<times> string) list"

text \<open>The WSP of RFC 6265 (space and tab), and the white space and line terminators
  \<open>String.prototype.trim\<close> strips, among the code units below 256.\<close>

definition wsp :: "char \<Rightarrow> bool" where
  "wsp c = (c = CHR 0x20 \<or> c = CHR 0x09)"

definition js_space :: "char \<Rightarrow> bool" where
  "js_space c = (c \<in> {CHR 0x09, CHR 0x0A, CHR 0x0B, CHR 0x0C, CHR 0x0D, CHR 0x20, CHR 0xA0})"

definition trim_wsp :: "string \<Rightarrow> string" where
  "trim_wsp t = rev (dropWhile wsp (rev (dropWhile wsp t)))"

definition trimEnd :: "string \<Rightarrow> string" where
  "trimEnd t = rev (dropWhile js_space (rev t))"

definition trim :: "string \<Rightarrow> string" where
  "trim t = trimEnd (dropWhile js_space t)"

fun store_cookie :: "string \<Rightarrow> string \<Rightarrow> cookie_jar \<Rightarrow> cookie_jar" where
  "store_cookie n v [] = [(n, v)]"
| "store_cookie n v ((n', v') # jar) =
     (if n' = n then (n, v) # jar else (n', v') # store_cookie n v jar)"

text \<open>
  \<open>document.cookie = str\<close>. The name and value are the text before the first \<open>;\<close>, split at
  its first \<open>=\<close> and trimmed of WSP. A text with no \<open>=\<close> is a value with the empty name, which
  browsers keep (RFC 6265 itself ignores it, and a cookie with the empty name); a cookie
  with neither name nor value is ignored. \<open>live\<close> says whether the expiry the attributes
  give is later than the reads that follow: a cookie that is not live removes the one
  stored under its name; a live one replaces it in place, or is added last.
\<close>

definition document_cookie_assign :: "bool \<Rightarrow> string \<Rightarrow> cookie_jar \<Rightarrow> cookie_jar" where
  "document_cookie_assign live str jar =
     (let pair = takeWhile (\<lambda>c. c \<noteq> CHR '';'') str;
          name = (if CHR ''='' \<in> set pair
                  then trim_wsp (takeWhile (\<lambda>c. c \<noteq> CHR ''='') pair) else []);
          val = (if CHR ''='' \<in> set pair
                 then trim_wsp (drop 1 (dropWhile (\<lambda>c. c \<noteq> CHR ''='') pair))
                 else trim_wsp pair)
      in if name = [] \<and> val = [] then jar
         else if live then store_cookie name val jar
         else filter (\<lambda>(n, v). n \<noteq> name) jar)"

text \<open>Reading \<open>document.cookie\<close>: a cookie with the empty name is its value alone.\<close>

definition cookie_text :: "string \<times> string \<Rightarrow> string" where
  "cookie_text = (\<lambda>(n, v). if n = [] then v else n @ ''='' @ v)"

definition document_cookie :: "cookie_jar \<Rightarrow> string" where
  "document_cookie jar = join ''; '' (map cookie_text jar)"

text \<open>\<open>t.split(c)\<close> for a one-character separator: never empty.\<close>

fun split_on :: "char \<Rightarrow> string \<Rightarrow> string list" where
  "split_on c [] = [[]]"
| "split_on c (x # xs) =
     (if x = c then [] # split_on c xs
      else (case split_on c xs of [] \<Rightarrow> [[x]] | y # ys \<Rightarrow> (x # y) # ys))"

text \<open>What \<open>getCookie\<close> returns: a text, \<open>null\<close>, or the \<open>undefined\<close> of a destructured
  array with one element.\<close>

datatype cookie_value = Null | Undefined | Value string

text \<open>The loop of \<open>getCookie\<close> over the pieces of \<open>document.cookie\<close>.\<close>

fun find_cookie :: "string \<Rightarrow> string list \<Rightarrow> cookie_value" where
  "find_cookie name [] = Null"
| "find_cookie name (cookie # cookies) =
     (case split_on CHR ''='' (trim cookie) of
        [] \<Rightarrow> find_cookie name cookies
      | [cookieName] \<Rightarrow> if cookieName = name then Undefined else find_cookie name cookies
      | cookieName # cookieValue # rest \<Rightarrow>
          if cookieName = name then Value cookieValue else find_cookie name cookies)"

definition getCookie :: "string \<Rightarrow> cookie_jar \<Rightarrow> cookie_value" where
  "getCookie name jar = find_cookie name (split_on CHR '';'' (document_cookie jar))"

text \<open>
  A well-formed store. The parse above gives every stored cookie a name with no \<open>=\<close> and no
  \<open>;\<close>, and a value with no \<open>;\<close>. The store is also asked to hold no cookie with the empty
  name and no name that begins with white space: the parse strips spaces and tabs only.
\<close>

definition wf_jar :: "cookie_jar \<Rightarrow> bool" where
  "wf_jar jar =
     list_all (\<lambda>(n, v). n \<noteq> [] \<and> \<not> js_space (hd n) \<and> CHR ''='' \<notin> set n
                 \<and> CHR '';'' \<notin> set n \<and> CHR '';'' \<notin> set v) jar"

text \<open>A cookie name with no \<open>=\<close>, no \<open>;\<close> and no white space.\<close>

definition cookie_name_ok :: "string \<Rightarrow> bool" where
  "cookie_name_ok n =
     (n \<noteq> [] \<and> list_all (\<lambda>c. c \<noteq> CHR ''='' \<and> c \<noteq> CHR '';'' \<and> \<not> js_space c) n)"

text \<open>
  The platform the module runs on: whether \<open>NODE_ENV\<close> is \<open>production\<close>, the text
  \<open>toUTCString\<close> gives the date so many days from now, and \<open>JSON.stringify\<close> and
  \<open>JSON.parse\<close>.
\<close>

record 'e platform =
  production :: bool
  toUTCString :: "int \<Rightarrow> string"
  JSON_stringify :: "json \<Rightarrow> string"
  JSON_parse :: "string \<Rightarrow> 'e + json"

text \<open>
  \<open>setCookie\<close>: the cookie expires \<open>days\<close> days from now. A date outside the range of
  \<open>Date\<close> is written as \<open>Invalid Date\<close>, which the store cannot read: the cookie then has no
  expiry and lasts for the session.
\<close>

definition setCookie :: "'e platform \<Rightarrow> string \<Rightarrow> string \<Rightarrow> int \<Rightarrow> cookie_jar \<Rightarrow> cookie_jar" where
  "setCookie p name val days jar =
     (let cookieString =
        name @ ''='' @ val @ ''; expires='' @ toUTCString p days @ ''; path=/; SameSite=Lax''
          @ (if production p then ''; Secure'' else [])
      in document_cookie_assign (0 < days \<or> toUTCString p days = ''Invalid Date'')
           cookieString jar)"

definition deleteCookie :: "string \<Rightarrow> cookie_jar \<Rightarrow> cookie_jar" where
  "deleteCookie name jar =
     document_cookie_assign False
       (name @ ''=; expires=Thu, 01 Jan 1970 00:00:00 UTC; path=/;'') jar"

subsection \<open>The credential store\<close>

text \<open>The page's storage: the cookies and \<open>localStorage\<close>.\<close>

record browser =
  cookies :: cookie_jar
  localStorage :: "string \<rightharpoonup> string"

text \<open>The argument of \<open>saveAuthData\<close>; \<open>user\<close> is optional.\<close>

record auth_data =
  access :: string
  refresh :: string
  user :: "json option"

definition saveAuthData :: "'e platform \<Rightarrow> auth_data \<Rightarrow> browser \<Rightarrow> browser" where
  "saveAuthData p authData b =
     (let b1 = b\<lparr>cookies := setCookie p ''access_token'' (access authData) 7 (cookies b)\<rparr>;
          b2 = b1\<lparr>cookies := setCookie p ''refresh_token'' (refresh authData) 30 (cookies b1)\<rparr>
      in case user authData of
           None \<Rightarrow> b2
         | Some u \<Rightarrow>
             if truthy u
             then b2\<lparr>localStorage := (localStorage b2)(''user'' \<mapsto> JSON_stringify p u)\<rparr>
             else b2)"

text \<open>\<open>getUserData\<close>: \<open>null\<close> for a missing or empty item, else what \<open>JSON.parse\<close> returns
  or throws.\<close>

definition getUserData :: "'e platform \<Rightarrow> browser \<Rightarrow> 'e + json" where
  "getUserData p b =
     (case localStorage b ''user'' of
        None \<Rightarrow> Inr JNull
      | Some userData \<Rightarrow> if userData = [] then Inr JNull else JSON_parse p userData)"

definition clearAuthData :: "browser \<Rightarrow> browser" where
  "clearAuthData b =
     (let b1 = b\<lparr>cookies := deleteCookie ''access_token'' (cookies b)\<rparr>;
          b2 = b1\<lparr>cookies := deleteCookie ''refresh_token'' (cookies b1)\<rparr>
      in b2\<lparr>localStorage := (localStorage b2)(''user'' := None)\<rparr>)"

text \<open>\<open>!!token\<close> for what \<open>getCookie\<close> returned.\<close>

fun token_truthy :: "cookie_value \<Rightarrow> bool" where
  "token_truthy Null = False"
| "token_truthy Undefined = False"
| "token_truthy (Value t) = (t \<noteq> [])"

definition isAuthenticated :: "browser \<Rightarrow> bool" where
  "isAuthenticated b = token_truthy (getCookie ''access_token'' (cookies b))"

subsection \<open>The request handler\<close>

text \<open>An object of text properties, as a list in insertion order; \<open>{...a, ...b}\<close> keeps the
  place of a key of \<open>a\<close> that \<open>b\<close> overrides.\<close>

type_synonym js_object = "(string \<times> string) list"

fun set_property :: "string \<Rightarrow> string \<Rightarrow> js_object \<Rightarrow> js_object" where
  "set_property k v [] = [(k, v)]"
| "set_property k v ((k', v') # ps) =
     (if k' = k then (k, v) # ps else (k', v') # set_property k v ps)"

definition spread :: "js_object \<Rightarrow> js_object \<Rightarrow> js_object" where
  "spread a b = foldl (\<lambda>obj (k, v). set_property k v obj) a b"

text \<open>\<open>token && { 'Authorization': `Bearer ${token}` }\<close>, spread into the headers.\<close>

definition authorization :: "cookie_value \<Rightarrow> js_object" where
  "authorization token =
     (case token of
        Value t \<Rightarrow> if t = [] then [] else [(''Authorization'', ''Bearer '' @ t)]
      | _ \<Rightarrow> [])"

text \<open>What \<open>fetch\<close> is called with, and the response it resolves to: its \<open>ok\<close> flag and what
  \<open>response.json()\<close> resolves to or rejects with.\<close>

record request =
  url :: string
  http_method :: "string option"
  body :: "string option"
  headers :: js_object
  credentials :: string

record 'e response =
  ok :: bool
  json_body :: "'e + json"

text \<open>The options a caller passes to \<open>apiRequest\<close>.\<close>

record request_init =
  init_method :: "string option"
  init_body :: "string option"
  init_headers :: js_object

text \<open>\<open>data.detail || data.message || 'API request failed'\<close>, the right operand first.\<close>

definition message_or_generic :: "json \<Rightarrow> 'e thrown + json" where
  "message_or_generic data =
     (case get_property data ''message'' of
        Inl e \<Rightarrow> Inl e
      | Inr None \<Rightarrow> Inr (JStr ''API request failed'')
      | Inr (Some m) \<Rightarrow> if truthy m then Inr m else Inr (JStr ''API request failed''))"

definition detail_or_message :: "json \<Rightarrow> 'e thrown + json" where
  "detail_or_message data =
     (case get_property data ''detail'' of
        Inl e \<Rightarrow> Inl e
      | Inr None \<Rightarrow> message_or_generic data
      | Inr (Some d) \<Rightarrow> if truthy d then Inr d else message_or_generic data)"

text \<open>
  \<open>apiRequest\<close>: \<open>fetch\<close> is the platform's, \<open>base\<close> is \<open>API_BASE_URL\<close>, \<open>jar\<close> the cookies
  of the page. The \<open>catch\<close> logs and rethrows what it caught.
\<close>

definition apiRequest ::
  "(request \<Rightarrow> 'e + 'e response) \<Rightarrow> string \<Rightarrow> cookie_jar \<Rightarrow> string \<Rightarrow> request_init
     \<Rightarrow> 'e thrown + json" where
  "apiRequest fetch base jar endpoint options =
     (let token = getCookie ''access_token'' jar;
          hs = spread (spread [(''Content-Type'', ''application/json'')] (authorization token))
                 (init_headers options)
      in case fetch \<lparr>url = base @ endpoint, http_method = init_method options,
                     body = init_body options, headers = hs, credentials = ''include''\<rparr> of
           Inl e \<Rightarrow> Inl (Raised e)
         | Inr response \<Rightarrow>
             (case json_body response of
                Inl e \<Rightarrow> Inl (Raised e)
              | Inr data \<Rightarrow>
                  if \<not> ok response then
                    (case detail_or_message data of
                       Inl e \<Rightarrow> Inl e
                     | Inr v \<Rightarrow>
                         (case ToString v of
                            None \<Rightarrow> Inl JsNoPrimitive
                          | Some msg \<Rightarrow> Inl (JsError msg)))
                  else Inr data))"

subsection \<open>A platform for the examples\<close>

text \<open>The profile \<open>{"username":"bob"}\<close> and its JSON text, and a platform in development mode
  whose \<open>JSON.stringify\<close> and \<open>JSON.parse\<close> are right on this profile and its text, and on
  texts that are not JSON.\<close>

definition bob :: json where
  "bob = JObj [(''username'', JStr ''bob'')]"

definition bob_text :: string where
  "bob_text =
     ''{'' @ CHR 0x22 # ''username'' @ CHR 0x22 # '':'' @ CHR 0x22 # ''bob'' @ CHR 0x22 # ''}''"

definition example_platform :: "string platform" where
  "example_platform =
     \<lparr>production = False,
      toUTCString = (\<lambda>days. ''Mon, 09 Nov 2026 10:00:00 GMT''),
      JSON_stringify = (\<lambda>v. if v = bob then bob_text else ''null''),
      JSON_parse = (\<lambda>t. if t = bob_text then Inr bob else Inl ''SyntaxError'')\<rparr>"


section \<open>Properties of the OTP modal\<close>

subsection \<open>The invariant of the countdown\<close>

lemma countdown_effect_idem: "countdown_effect (countdown_effect s) = countdown_effect s"
  by (simp add: countdown_effect_def Let_def)

lemma commit_eq:
  "commit prev s =
     (if countdown s \<noteq> countdown prev \<or> isOpen s \<noteq> isOpen prev then countdown_effect s else s)"
  by (simp add: commit_def Let_def countdown_effect_idem)

lemma modal_inv_effect:
  "0 \<le> countdown s \<Longrightarrow> countdown s \<le> 60 \<Longrightarrow> (countdown s = 0 \<or> \<not> canResend s)
   \<Longrightarrow> modal_inv (countdown_effect s)"
  by (auto simp add: modal_inv_def countdown_effect_def Let_def)

lemma modal_inv_mount: "modal_inv (mount b)"
  by (simp add: mount_def modal_inv_effect)

lemma modal_inv_bounds:
  "modal_inv s \<Longrightarrow> 0 \<le> countdown s \<and> countdown s \<le> 60 \<and> canResend s = (countdown s = 0)"
  by (simp add: modal_inv_def)

lemma modal_inv_timer:
  "modal_inv s \<Longrightarrow> timer s = Some k \<Longrightarrow> k = countdown s - 1 \<and> 0 < countdown s \<and> isOpen s"
  by (simp add: modal_inv_def)

lemma modal_inv_frame:
  "modal_inv s \<Longrightarrow> isOpen s' = isOpen s \<Longrightarrow> countdown s' = countdown s
   \<Longrightarrow> canResend s' = canResend s \<Longrightarrow> timer s' = timer s \<Longrightarrow> modal_inv s'"
  by (simp add: modal_inv_def split: option.splits)

lemma modal_inv_commit:
  "modal_inv prev \<Longrightarrow> 0 \<le> countdown s \<Longrightarrow> countdown s \<le> 60 \<Longrightarrow> countdown s = 0 \<or> \<not> canResend s
   \<Longrightarrow> canResend s = canResend prev \<Longrightarrow> timer s = timer prev
   \<Longrightarrow> modal_inv (commit prev s)"
  by (auto simp add: commit_eq modal_inv_effect elim: modal_inv_frame)

lemma modal_inv_Open: "modal_inv s \<Longrightarrow> modal_inv (step Open s)"
  using modal_inv_bounds [of s] by (auto intro!: modal_inv_commit)

lemma modal_inv_Close: "modal_inv s \<Longrightarrow> modal_inv (step Close s)"
  using modal_inv_bounds [of s] by (auto intro!: modal_inv_commit)

lemma modal_inv_Tick: "modal_inv s \<Longrightarrow> modal_inv (step Tick s)"
proof (cases "timer s")
  case None
  assume "modal_inv s"
  with None show ?thesis by simp
next
  case (Some k)
  assume inv: "modal_inv s"
  from modal_inv_timer [OF inv Some] modal_inv_bounds [OF inv] Some
  show ?thesis
    by (auto simp add: commit_eq intro!: modal_inv_effect)
qed

lemma modal_inv_Edit: "modal_inv s \<Longrightarrow> modal_inv (step (Edit v) s)"
  by (auto simp add: handleOTPChange_def Let_def elim!: modal_inv_frame)

lemma modal_inv_start_verify: "modal_inv s \<Longrightarrow> modal_inv (start_verify s)"
  by (auto simp add: start_verify_def handleVerify_begin_def elim!: modal_inv_frame)

lemma modal_inv_VerifyDone: "modal_inv s \<Longrightarrow> modal_inv (step (VerifyDone r) s)"
  by (auto simp add: handleVerify_end_def split: option.splits pending_call.splits outcome.splits
      elim!: modal_inv_frame)

lemma modal_inv_ResendClick: "modal_inv s \<Longrightarrow> modal_inv (step ResendClick s)"
  by (auto simp add: handleResend_begin_def elim!: modal_inv_frame)

lemma modal_inv_ResendDone: "modal_inv s \<Longrightarrow> modal_inv (step (ResendDone r) s)"
proof (cases "pending s = Some ResendCall")
  case False
  assume "modal_inv s"
  with False show ?thesis by (auto split: option.splits pending_call.splits)
next
  case True
  assume inv: "modal_inv s"
  show ?thesis
  proof (cases r)
    case Resolved
    with True inv modal_inv_bounds [OF inv] show ?thesis
      by (auto simp add: commit_eq handleResend_end_def intro!: modal_inv_effect
          elim!: modal_inv_frame)
  next
    case (Rejected m)
    with True inv show ?thesis
      by (auto simp add: commit_eq handleResend_end_def elim!: modal_inv_frame)
  qed
qed

lemma modal_inv_step: "modal_inv s \<Longrightarrow> modal_inv (step e s)"
  by (cases e)
    (simp_all only: modal_inv_Open modal_inv_Close modal_inv_Tick modal_inv_Edit
      modal_inv_VerifyDone modal_inv_ResendClick modal_inv_ResendDone,
      auto simp add: modal_inv_start_verify)

lemma modal_inv_run: "modal_inv s \<Longrightarrow> modal_inv (run evs s)"
  by (induction evs arbitrary: s) (auto simp: modal_inv_step)


lemma run_append: "run (xs @ ys) s = run ys (run xs s)"
  by (induction xs arbitrary: s) auto

lemma run_ticks:
  "n \<le> 60 \<Longrightarrow> run (replicate n Tick) (mount True) =
     \<lparr>isOpen = True, otp = [], loading = False, error = [], countdown = 60 - int n,
      canResend = (n = 60), timer = (if n < 60 then Some (59 - int n) else None), pending = None\<rparr>"
proof (induction n)
  case 0
  then show ?case by (simp add: mount_def countdown_effect_def Let_def)
next
  case (Suc n)
  have "replicate (Suc n) Tick = replicate n Tick @ [Tick]"
    by (simp add: replicate_append_same)
  then have "run (replicate (Suc n) Tick) (mount True) = step Tick (run (replicate n Tick) (mount True))"
    by (simp only: run_append run.simps)
  with Suc show ?case
    by (simp add: commit_eq countdown_effect_def Let_def)
qed

lemma step_canResend_rises:
  assumes "modal_inv s" "\<not> canResend s" "canResend (step e s)"
  shows "e = Tick \<and> countdown s = 1 \<and> countdown (step e s) = 0"
proof -
  from assms(1) have b: "canResend s = (countdown s = 0)" "0 \<le> countdown s"
    by (simp_all add: modal_inv_def)
  from modal_inv_step [OF assms(1), of e] have b': "canResend (step e s) = (countdown (step e s) = 0)"
    by (simp add: modal_inv_def)
  show ?thesis
  proof (cases e)
    case Tick
    show ?thesis
    proof (cases "timer s")
      case None
      with Tick assms show ?thesis by simp
    next
      case (Some k)
      from modal_inv_timer [OF assms(1) Some] Some Tick assms(3) b' show ?thesis
        by (auto simp add: commit_eq countdown_effect_def Let_def split: if_splits)
    qed
  next
    case Open
    with assms b show ?thesis
      by (auto simp add: commit_eq countdown_effect_def Let_def modal_inv_def split: if_splits)
  next
    case Close
    with assms b show ?thesis
      by (auto simp add: commit_eq countdown_effect_def Let_def split: if_splits)
  next
    case (Edit v)
    with assms show ?thesis by (auto simp add: handleOTPChange_def Let_def split: if_splits)
  next
    case VerifyClick
    with assms show ?thesis
      by (auto simp add: start_verify_def handleVerify_begin_def split: if_splits)
  next
    case KeyEnter
    with assms show ?thesis
      by (auto simp add: start_verify_def handleVerify_begin_def split: if_splits)
  next
    case (VerifyDone r)
    with assms show ?thesis
      by (auto simp add: handleVerify_end_def
          split: option.splits pending_call.splits outcome.splits)
  next
    case ResendClick
    with assms show ?thesis by (auto simp add: handleResend_begin_def split: if_splits)
  next
    case (ResendDone r)
    with assms b show ?thesis
      by (auto simp add: commit_eq countdown_effect_def Let_def handleResend_end_def
          split: option.splits pending_call.splits outcome.splits if_splits)
  qed
qed

lemma step_canResend_falls:
  assumes "modal_inv s" "canResend s" "\<not> canResend (step e s)"
  shows "e = Close \<or> e = ResendDone Resolved"
proof (cases e)
  case Tick
  with assms show ?thesis
    by (auto simp add: commit_eq countdown_effect_def Let_def modal_inv_def
        split: option.splits if_splits)
next
  case Open
  with assms show ?thesis
    by (auto simp add: commit_eq countdown_effect_def Let_def split: if_splits)
next
  case (Edit v)
  with assms show ?thesis by (auto simp add: handleOTPChange_def Let_def split: if_splits)
next
  case VerifyClick
  with assms show ?thesis
    by (auto simp add: start_verify_def handleVerify_begin_def split: if_splits)
next
  case KeyEnter
  with assms show ?thesis
    by (auto simp add: start_verify_def handleVerify_begin_def split: if_splits)
next
  case (VerifyDone r)
  with assms show ?thesis
    by (auto simp add: handleVerify_end_def
        split: option.splits pending_call.splits outcome.splits)
next
  case ResendClick
  with assms show ?thesis by (auto simp add: handleResend_begin_def split: if_splits)
next
  case (ResendDone r)
  with assms show ?thesis
    by (cases r) (auto simp add: commit_eq countdown_effect_def Let_def handleResend_end_def
        split: option.splits pending_call.splits if_splits)
qed simp

subsection \<open>Verify\<close>

text \<open>
  C1. In every state, \<open>handleVerify\<close> with a code whose length is not 6 sets the error
  \<open>Please enter a 6-digit OTP\<close>, changes nothing else and does not call \<open>onVerify\<close>;
  with a code of length 6 it calls \<open>onVerify\<close> once, with the current code, and ends in the
  state that the outcome of this call decides: loading over, the error empty when the call
  resolved, and the error the rejection's message (or \<open>Invalid OTP. Please try again.\<close>)
  when it rejected.
\<close>

theorem handleVerify_validates:
  "(length (otp s) \<noteq> 6 \<longrightarrow>
      handleVerify onVerify s = (s\<lparr>error := ''Please enter a 6-digit OTP''\<rparr>, []))
   \<and> (length (otp s) = 6 \<longrightarrow>
        handleVerify onVerify s =
          (handleVerify_end (onVerify (otp s)) (s\<lparr>loading := True, error := []\<rparr>), [otp s]))
   \<and> (length (otp s) = 6 \<and> onVerify (otp s) = Resolved \<longrightarrow>
        handleVerify onVerify s = (s\<lparr>loading := False, error := []\<rparr>, [otp s]))
   \<and> (length (otp s) = 6 \<and> onVerify (otp s) = Rejected m \<longrightarrow>
        handleVerify onVerify s =
          (s\<lparr>loading := False, error := message_or m ''Invalid OTP. Please try again.''\<rparr>,
           [otp s]))"
  by (simp add: handleVerify_def handleVerify_begin_def handleVerify_end_def)

theorem handleVerify_validates_witness:
  "handleVerify (\<lambda>code. Resolved) (mount True)
     = ((mount True)\<lparr>error := ''Please enter a 6-digit OTP''\<rparr>, [])
   \<and> handleVerify (\<lambda>code. if code = ''123456'' then Resolved else Rejected None)
         ((mount True)\<lparr>otp := ''123456'', error := ''Please enter a 6-digit OTP''\<rparr>)
     = ((mount True)\<lparr>otp := ''123456''\<rparr>, [''123456''])
   \<and> handleVerify (\<lambda>code. if code = ''123456'' then Rejected (Some ''Code expired'') else Resolved)
         ((mount True)\<lparr>otp := ''123456''\<rparr>)
     = ((mount True)\<lparr>otp := ''123456'', error := ''Code expired''\<rparr>, [''123456''])"
  using handleVerify_validates [of "mount True" "\<lambda>code. Resolved"]
    handleVerify_validates [of "(mount True)\<lparr>otp := ''123456'', error := ''Please enter a 6-digit OTP''\<rparr>"
      "\<lambda>code. if code = ''123456'' then Resolved else Rejected None"]
    handleVerify_validates [of "(mount True)\<lparr>otp := ''123456''\<rparr>"
      "\<lambda>code. if code = ''123456'' then Rejected (Some ''Code expired'') else Resolved"
      "Some ''Code expired''"]
  by (simp add: mount_def countdown_effect_def Let_def message_or_def handleVerify_end_def)

subsection \<open>Editing the code\<close>

text \<open>
  C2, as stated, fails: \<open>handleOTPChange\<close> ignores a text of more than six digits, and the
  error stays. Here the modal shows the error of a rejected code, and \<open>handleOTPChange\<close>
  with \<open>1234567\<close> leaves it.
\<close>

theorem handleOTPChange_rejects_long_input:
  "error (handleOTPChange ''1234567''
            (run [Edit ''123456'', VerifyClick, VerifyDone (Rejected None)] (mount True)))
     = ''Invalid OTP. Please try again.''"
  by (simp add: mount_def countdown_effect_def Let_def handleOTPChange_def is_digit_def
      start_verify_def handleVerify_begin_def handleVerify_end_def message_or_def)

text \<open>
  C2, amended. An edit whose text has at most six digits sets the code to these digits
  (digits only, at most six) and clears the error; an edit with more digits changes
  nothing. So a code of at most six digits stays one under every edit.
\<close>

theorem handleOTPChange_digits:
  "(length (filter is_digit v) \<le> 6 \<longrightarrow>
      handleOTPChange v s = s\<lparr>otp := filter is_digit v, error := []\<rparr>
      \<and> (\<forall>c \<in> set (otp (handleOTPChange v s)). is_digit c)
      \<and> length (otp (handleOTPChange v s)) \<le> 6)
   \<and> (6 < length (filter is_digit v) \<longrightarrow> handleOTPChange v s = s)
   \<and> ((\<forall>c \<in> set (otp s). is_digit c) \<and> length (otp s) \<le> 6 \<longrightarrow>
        (\<forall>c \<in> set (otp (handleOTPChange v s)). is_digit c)
        \<and> length (otp (handleOTPChange v s)) \<le> 6)"
  by (simp add: handleOTPChange_def Let_def)

theorem handleOTPChange_digits_witness:
  "handleOTPChange ''12a 34'' ((mount True)\<lparr>error := ''Please enter a 6-digit OTP''\<rparr>)
     = (mount True)\<lparr>otp := ''1234'', error := []\<rparr>
   \<and> handleOTPChange ''1234567'' ((mount True)\<lparr>otp := ''123456''\<rparr>)
     = (mount True)\<lparr>otp := ''123456''\<rparr>
   \<and> length (otp (handleOTPChange ''1234567'' ((mount True)\<lparr>otp := ''123456''\<rparr>))) \<le> 6"
  using handleOTPChange_digits [of "''12a 34''" "(mount True)\<lparr>error := ''Please enter a 6-digit OTP''\<rparr>"]
    handleOTPChange_digits [of "''1234567''" "(mount True)\<lparr>otp := ''123456''\<rparr>"]
  by (simp add: mount_def countdown_effect_def Let_def is_digit_def)

subsection \<open>Opening\<close>

text \<open>
  C3. Opening the modal yields the countdown 60 with the resend disabled: after a close
  from any open state, whatever its countdown and \<open>canResend\<close>, and from every closed
  state the modal reaches.
\<close>

theorem open_resets_countdown:
  "(isOpen s \<longrightarrow>
      isOpen (step Open (step Close s)) \<and> countdown (step Open (step Close s)) = 60
      \<and> \<not> canResend (step Open (step Close s)))
   \<and> (\<not> isOpen (run evs (mount b)) \<longrightarrow>
        isOpen (step Open (run evs (mount b))) \<and> countdown (step Open (run evs (mount b))) = 60
        \<and> \<not> canResend (step Open (run evs (mount b))))"
proof -
  have "modal_inv (run evs (mount b))"
    by (simp add: modal_inv_run modal_inv_mount)
  then have "\<not> isOpen (run evs (mount b)) \<Longrightarrow>
      countdown (run evs (mount b)) = 60 \<and> \<not> canResend (run evs (mount b))"
    by (auto simp add: modal_inv_def)
  then show ?thesis
    by (auto simp add: commit_eq countdown_effect_def Let_def)
qed

theorem open_resets_countdown_witness:
  "canResend (run (replicate 60 Tick) (mount True))
   \<and> countdown (run (replicate 60 Tick) (mount True)) = 0
   \<and> countdown (step Open (step Close (run (replicate 60 Tick) (mount True)))) = 60
   \<and> \<not> canResend (step Open (step Close (run (replicate 60 Tick) (mount True))))
   \<and> \<not> isOpen (run (replicate 60 Tick @ [Close]) (mount True))
   \<and> countdown (step Open (run (replicate 60 Tick @ [Close]) (mount True))) = 60
   \<and> \<not> canResend (step Open (run (replicate 60 Tick @ [Close]) (mount True)))"
  using open_resets_countdown [of "run (replicate 60 Tick) (mount True)" "replicate 60 Tick @ [Close]" True]
  by (simp add: run_append run_ticks commit_eq countdown_effect_def Let_def)

subsection \<open>Resend\<close>

text \<open>
  C4. In every state, a resend that succeeds leaves the code empty, the countdown at 60,
  the resend disabled and the error empty; one that fails sets the error to the failure's
  message (to \<open>Failed to resend OTP\<close> when it has none) and leaves the countdown, the
  resend flag and the code as they were.
\<close>

theorem handleResend_outcomes:
  "otp (handleResend Resolved s) = [] \<and> countdown (handleResend Resolved s) = 60
   \<and> \<not> canResend (handleResend Resolved s) \<and> error (handleResend Resolved s) = []
   \<and> error (handleResend (Rejected m) s) = message_or m ''Failed to resend OTP''
   \<and> countdown (handleResend (Rejected m) s) = countdown s
   \<and> otp (handleResend (Rejected m) s) = otp s
   \<and> canResend (handleResend (Rejected m) s) = canResend s
   \<and> (t \<noteq> [] \<longrightarrow> error (handleResend (Rejected (Some t)) s) = t)"
  by (simp add: handleResend_def handleResend_begin_def handleResend_end_def commit_eq
      countdown_effect_def Let_def message_or_def)

theorem handleResend_outcomes_witness:
  "error (handleResend (Rejected (Some ''API request failed''))
            (run (replicate 60 Tick) (mount True))) = ''API request failed''
   \<and> countdown (handleResend (Rejected (Some ''API request failed''))
            (run (replicate 60 Tick) (mount True))) = 0
   \<and> countdown (handleResend Resolved (run (replicate 60 Tick) (mount True))) = 60"
  using handleResend_outcomes [of "run (replicate 60 Tick) (mount True)" "Some ''API request failed''"
      "''API request failed''"]
  by (simp add: run_ticks message_or_def)

subsection \<open>The resend flag and the countdown\<close>

text \<open>
  C5, as stated, fails in its last part: closing the modal disables the resend at once,
  with no reopening and no resend. After sixty ticks the resend is enabled; the close
  disables it.
\<close>

theorem close_disables_resend:
  "canResend (run (replicate 60 Tick) (mount True))
   \<and> \<not> canResend (step Close (run (replicate 60 Tick) (mount True)))
   \<and> \<not> isOpen (step Close (run (replicate 60 Tick) (mount True)))"
  by (simp add: run_ticks commit_eq countdown_effect_def Let_def)

text \<open>
  C5, amended. In every state the modal reaches, the resend is enabled iff the countdown
  is 0. An event enables the resend only as the tick that takes the countdown from 1 to 0,
  every event that takes the countdown to 0 enables it, and an event disables it only as
  a close or as a resend that succeeded.
\<close>

theorem canResend_iff_countdown_zero:
  "canResend (run evs (mount b)) = (countdown (run evs (mount b)) = 0)
   \<and> (\<not> canResend (run evs (mount b)) \<and> canResend (step e (run evs (mount b))) \<longrightarrow>
        e = Tick \<and> countdown (run evs (mount b)) = 1 \<and> countdown (step e (run evs (mount b))) = 0)
   \<and> (countdown (run evs (mount b)) \<noteq> 0 \<and> countdown (step e (run evs (mount b))) = 0 \<longrightarrow>
        canResend (step e (run evs (mount b))))
   \<and> (canResend (run evs (mount b)) \<and> \<not> canResend (step e (run evs (mount b))) \<longrightarrow>
        e = Close \<or> e = ResendDone Resolved)"
proof -
  have inv: "modal_inv (run evs (mount b))"
    by (simp add: modal_inv_run modal_inv_mount)
  have inv': "modal_inv (step e (run evs (mount b)))"
    by (simp add: modal_inv_step inv)
  from inv have 1: "canResend (run evs (mount b)) = (countdown (run evs (mount b)) = 0)"
    by (simp add: modal_inv_def)
  from inv' have 2: "countdown (step e (run evs (mount b))) = 0 \<Longrightarrow> canResend (step e (run evs (mount b)))"
    by (simp add: modal_inv_def)
  show ?thesis
    using 1 2 step_canResend_rises [OF inv, of e] step_canResend_falls [OF inv, of e]
    by blast
qed

theorem canResend_iff_countdown_zero_witness:
  "\<not> canResend (run (replicate 59 Tick) (mount True))
   \<and> countdown (run (replicate 59 Tick) (mount True)) = 1
   \<and> canResend (step Tick (run (replicate 59 Tick) (mount True)))
   \<and> countdown (step Tick (run (replicate 59 Tick) (mount True))) = 0
   \<and> canResend (run (replicate 60 Tick) (mount True))
   \<and> \<not> canResend (step Close (run (replicate 60 Tick) (mount True)))"
  using canResend_iff_countdown_zero [of "replicate 59 Tick" True Tick]
    canResend_iff_countdown_zero [of "replicate 60 Tick" True Close]
  by (simp add: run_ticks commit_eq countdown_effect_def Let_def)

section \<open>Properties of the API module\<close>

subsection \<open>Splitting and trimming\<close>

lemma split_on_nomatch: "c \<notin> set xs \<Longrightarrow> split_on c xs = [xs]"
  by (induction xs) auto

lemma split_on_append: "c \<notin> set xs \<Longrightarrow> split_on c (xs @ c # ys) = xs # split_on c ys"
  by (induction xs) auto

lemma split_on_hd: "\<exists>rest. split_on c xs = takeWhile (\<lambda>x. x \<noteq> c) xs # rest"
  by (induction xs) (auto split: list.splits)

lemma wsp_js_space: "wsp c \<Longrightarrow> js_space c"
  by (auto simp add: wsp_def js_space_def)

lemma dropWhile_rev_tail: "\<not> P y \<Longrightarrow> dropWhile P (xs @ y # ys) = dropWhile P xs @ y # ys"
  by (induction xs) auto

lemma trimEnd_after: "\<not> js_space y \<Longrightarrow> trimEnd (xs @ y # ys) = xs @ y # trimEnd ys"
  by (simp add: trimEnd_def dropWhile_rev_tail)

lemma trim_piece:
  assumes "list_all js_space pad" "n \<noteq> []" "\<not> js_space (hd n)"
  shows "trim (pad @ n @ CHR ''='' # v) = n @ CHR ''='' # trimEnd v"
proof -
  from assms have "dropWhile js_space (pad @ n @ CHR ''='' # v) = n @ CHR ''='' # v"
    by (cases n) (auto simp add: list_all_iff)
  moreover have "\<not> js_space CHR ''=''"
    by (simp add: js_space_def)
  ultimately show ?thesis
    by (simp add: trim_def trimEnd_after)
qed

lemma find_cookie_piece:
  assumes "list_all js_space pad" "n \<noteq> []" "\<not> js_space (hd n)" "CHR ''='' \<notin> set n"
  shows "find_cookie name ((pad @ n @ CHR ''='' # v) # rest) =
     (if n = name then Value (takeWhile (\<lambda>c. c \<noteq> CHR ''='') (trimEnd v))
      else find_cookie name rest)"
proof -
  obtain more where "split_on CHR ''='' (trimEnd v) = takeWhile (\<lambda>c. c \<noteq> CHR ''='') (trimEnd v) # more"
    using split_on_hd by blast
  with assms show ?thesis
    by (simp add: trim_piece split_on_append)
qed

lemma split_on_join:
  assumes "\<forall>e \<in> set (x # xs). CHR '';'' \<notin> set e"
  shows "split_on CHR '';'' (join ''; '' (x # xs)) = x # map (\<lambda>e. CHR '' '' # e) xs"
  using assms
proof (induction xs arbitrary: x)
  case Nil
  then show ?case by (simp add: split_on_nomatch)
next
  case (Cons y ys)
  have "join ''; '' (x # y # ys) = x @ CHR '';'' # (CHR '' '' # join ''; '' (y # ys))"
    by simp
  moreover from Cons.prems have "CHR '';'' \<notin> set x" by simp
  ultimately have "split_on CHR '';'' (join ''; '' (x # y # ys))
      = x # split_on CHR '';'' (CHR '' '' # join ''; '' (y # ys))"
    using split_on_append [of "CHR '';''" x "CHR '' '' # join ''; '' (y # ys)"] by simp
  moreover from Cons.IH [of y] Cons.prems
  have "split_on CHR '';'' (join ''; '' (y # ys)) = y # map (\<lambda>e. CHR '' '' # e) ys"
    by simp
  ultimately show ?case by simp
qed

lemma find_cookie_padded:
  assumes "wf_jar jar"
  shows "find_cookie name (map (\<lambda>e. CHR '' '' # e) (map (\<lambda>(n, v). n @ ''='' @ v) jar)) =
     (case map_of jar name of None \<Rightarrow> Null
      | Some v \<Rightarrow> Value (takeWhile (\<lambda>c. c \<noteq> CHR ''='') (trimEnd v)))"
  using assms
proof (induction jar)
  case Nil
  then show ?case by simp
next
  case (Cons e jar)
  obtain n v where e: "e = (n, v)" by (cases e)
  from Cons.prems e have wf: "n \<noteq> []" "\<not> js_space (hd n)" "CHR ''='' \<notin> set n" and rest: "wf_jar jar"
    by (simp_all add: wf_jar_def)
  have pad: "list_all js_space [CHR '' '']" by (simp add: js_space_def)
  from find_cookie_piece [OF pad wf, of name v]
  have "find_cookie name ((CHR '' '' # n @ CHR ''='' # v) # map (\<lambda>e. CHR '' '' # e) (map (\<lambda>(n, v). n @ ''='' @ v) jar))
      = (if n = name then Value (takeWhile (\<lambda>c. c \<noteq> CHR ''='') (trimEnd v))
         else find_cookie name (map (\<lambda>e. CHR '' '' # e) (map (\<lambda>(n, v). n @ ''='' @ v) jar)))"
    by simp
  with Cons.IH [OF rest] e show ?case by auto
qed

lemma cookie_text_wf: "wf_jar jar \<Longrightarrow> map cookie_text jar = map (\<lambda>(n, v). n @ ''='' @ v) jar"
  by (induction jar) (auto simp add: wf_jar_def cookie_text_def)

lemma getCookie_wf:
  assumes "wf_jar jar" "name \<noteq> []"
  shows "getCookie name jar =
     (case map_of jar name of None \<Rightarrow> Null
      | Some v \<Rightarrow> Value (takeWhile (\<lambda>c. c \<noteq> CHR ''='') (trimEnd v)))"
proof (cases jar)
  case Nil
  with assms show ?thesis
    by (simp add: getCookie_def document_cookie_def trim_def trimEnd_def)
next
  case (Cons e jar')
  obtain n v where e: "e = (n, v)" by (cases e)
  from assms(1) Cons e have wf: "n \<noteq> []" "\<not> js_space (hd n)" "CHR ''='' \<notin> set n" "CHR '';'' \<notin> set n"
    "CHR '';'' \<notin> set v" and rest: "wf_jar jar'"
    by (simp_all add: wf_jar_def)
  from assms(1) Cons have "\<forall>t \<in> set (map (\<lambda>(n, v). n @ ''='' @ v) jar). CHR '';'' \<notin> set t"
    by (auto simp add: wf_jar_def list_all_iff)
  moreover have doc: "document_cookie jar = join ''; '' (map (\<lambda>(n, v). n @ ''='' @ v) jar)"
    by (simp only: document_cookie_def cookie_text_wf [OF assms(1)])
  ultimately have "split_on CHR '';'' (document_cookie jar)
      = (n @ ''='' @ v) # map (\<lambda>e. CHR '' '' # e) (map (\<lambda>(n, v). n @ ''='' @ v) jar')"
    using split_on_join [of "n @ ''='' @ v" "map (\<lambda>(n, v). n @ ''='' @ v) jar'"] Cons e
    by (simp add: doc)
  moreover have "list_all js_space []" by simp
  from find_cookie_piece [OF this wf(1,2,3), of name v]
  have "find_cookie name ((n @ ''='' @ v) # map (\<lambda>e. CHR '' '' # e) (map (\<lambda>(n, v). n @ ''='' @ v) jar'))
      = (if n = name then Value (takeWhile (\<lambda>c. c \<noteq> CHR ''='') (trimEnd v))
         else find_cookie name (map (\<lambda>e. CHR '' '' # e) (map (\<lambda>(n, v). n @ ''='' @ v) jar')))"
    by simp
  ultimately show ?thesis
    using find_cookie_padded [OF rest, of name] Cons e
    by (auto simp add: getCookie_def)
qed

lemma map_of_store_cookie: "map_of (store_cookie n v jar) = (map_of jar)(n \<mapsto> v)"
  by (induction jar) auto

lemma map_of_remove_cookie: "map_of (filter (\<lambda>(n', v'). n' \<noteq> n) jar) = (map_of jar)(n := None)"
  by (induction jar) auto

lemma wf_jar_store_cookie:
  "wf_jar jar \<Longrightarrow> wf_jar [(n, v)] \<Longrightarrow> wf_jar (store_cookie n v jar)"
  by (induction jar) (auto simp add: wf_jar_def)

lemma wf_jar_remove_cookie: "wf_jar jar \<Longrightarrow> wf_jar (filter P jar)"
  by (induction jar) (auto simp add: wf_jar_def)

lemma set_trim_wsp: "set (trim_wsp t) \<subseteq> set t"
proof -
  have "set (dropWhile wsp (rev (dropWhile wsp t))) \<subseteq> set (rev (dropWhile wsp t))"
    by (meson set_dropWhileD subsetI)
  also have "\<dots> \<subseteq> set t"
    using set_dropWhileD by fastforce
  finally show ?thesis by (simp add: trim_wsp_def)
qed

lemma dropWhile_none: "\<forall>c \<in> set t. \<not> P c \<Longrightarrow> dropWhile P t = t"
  by (cases t) auto

lemma trim_wsp_name: "cookie_name_ok n \<Longrightarrow> trim_wsp n = n"
proof -
  assume ok: "cookie_name_ok n"
  then have "\<forall>c \<in> set n. \<not> wsp c"
    by (auto simp add: cookie_name_ok_def list_all_iff dest: wsp_js_space)
  then have "dropWhile wsp n = n" "dropWhile wsp (rev n) = rev n"
    by (simp_all add: dropWhile_none)
  then show ?thesis by (simp add: trim_wsp_def)
qed

lemma document_cookie_assign_pair:
  assumes "cookie_name_ok n"
  shows "document_cookie_assign live (n @ CHR ''='' # v @ CHR '';'' # rest) jar =
     (if live then store_cookie n (trim_wsp (takeWhile (\<lambda>c. c \<noteq> CHR '';'') v)) jar
      else filter (\<lambda>(n', v'). n' \<noteq> n) jar)"
proof -
  from assms have n: "n \<noteq> []" "\<forall>c \<in> set n. c \<noteq> CHR ''='' \<and> c \<noteq> CHR '';''"
    by (auto simp add: cookie_name_ok_def list_all_iff)
  have "takeWhile (\<lambda>c. c \<noteq> CHR '';'') (n @ CHR ''='' # v @ CHR '';'' # rest)
      = n @ takeWhile (\<lambda>c. c \<noteq> CHR '';'') (CHR ''='' # v @ CHR '';'' # rest)"
    using n(2) by (intro takeWhile_append2) simp
  also have "takeWhile (\<lambda>c. c \<noteq> CHR '';'') (CHR ''='' # v @ CHR '';'' # rest)
      = CHR ''='' # takeWhile (\<lambda>c. c \<noteq> CHR '';'') (v @ CHR '';'' # rest)"
    by simp
  also have "takeWhile (\<lambda>c. c \<noteq> CHR '';'') (v @ CHR '';'' # rest) = takeWhile (\<lambda>c. c \<noteq> CHR '';'') v"
    by (rule takeWhile_tail) simp
  finally have pair: "takeWhile (\<lambda>c. c \<noteq> CHR '';'') (n @ CHR ''='' # v @ CHR '';'' # rest)
      = n @ CHR ''='' # takeWhile (\<lambda>c. c \<noteq> CHR '';'') v" .
  have name: "takeWhile (\<lambda>c. c \<noteq> CHR ''='') (n @ CHR ''='' # takeWhile (\<lambda>c. c \<noteq> CHR '';'') v) = n"
    using n(2) by (subst takeWhile_append2) simp_all
  have val: "dropWhile (\<lambda>c. c \<noteq> CHR ''='') (n @ CHR ''='' # takeWhile (\<lambda>c. c \<noteq> CHR '';'') v)
       = CHR ''='' # takeWhile (\<lambda>c. c \<noteq> CHR '';'') v"
    using n(2) by (subst dropWhile_append2) simp_all
  have "CHR ''='' \<in> set (n @ CHR ''='' # takeWhile (\<lambda>c. c \<noteq> CHR '';'') v)"
    by simp
  then show ?thesis
    unfolding document_cookie_assign_def Let_def pair name val
    using n(1) by (simp add: trim_wsp_name [OF assms])
qed

lemma setCookie_eq:
  assumes "cookie_name_ok n"
  shows "setCookie p n v days jar =
     (if 0 < days \<or> toUTCString p days = ''Invalid Date''
      then store_cookie n (trim_wsp (takeWhile (\<lambda>c. c \<noteq> CHR '';'') v)) jar
      else filter (\<lambda>(n', v'). n' \<noteq> n) jar)"
proof -
  have "n @ ''='' @ v @ ''; expires='' @ toUTCString p days @ ''; path=/; SameSite=Lax''
          @ (if production p then ''; Secure'' else [])
      = n @ CHR ''='' # v @ CHR '';'' # ('' expires='' @ toUTCString p days
          @ ''; path=/; SameSite=Lax'' @ (if production p then ''; Secure'' else []))"
    by simp
  then show ?thesis
    unfolding setCookie_def Let_def
    by (simp only: document_cookie_assign_pair [OF assms])
qed

lemma deleteCookie_eq:
  assumes "cookie_name_ok n"
  shows "deleteCookie n jar = filter (\<lambda>(n', v'). n' \<noteq> n) jar"
proof -
  have "n @ ''=; expires=Thu, 01 Jan 1970 00:00:00 UTC; path=/;''
      = n @ CHR ''='' # [] @ CHR '';'' # '' expires=Thu, 01 Jan 1970 00:00:00 UTC; path=/;''"
    by simp
  then show ?thesis
    unfolding deleteCookie_def
    by (simp only: document_cookie_assign_pair [OF assms] if_False)
qed

lemma wf_jar_stored:
  assumes "cookie_name_ok n"
  shows "wf_jar [(n, trim_wsp (takeWhile (\<lambda>c. c \<noteq> CHR '';'') v))]"
proof -
  have "CHR '';'' \<notin> set (takeWhile (\<lambda>c. c \<noteq> CHR '';'') v)"
    by (auto dest: set_takeWhileD)
  with set_trim_wsp [of "takeWhile (\<lambda>c. c \<noteq> CHR '';'') v"]
  have "CHR '';'' \<notin> set (trim_wsp (takeWhile (\<lambda>c. c \<noteq> CHR '';'') v))"
    by blast
  moreover from assms have "n \<noteq> []" "\<not> js_space (hd n)" "CHR ''='' \<notin> set n" "CHR '';'' \<notin> set n"
    by (cases n; auto simp add: cookie_name_ok_def list_all_iff)+
  ultimately show ?thesis by (simp add: wf_jar_def)
qed

lemma wf_jar_setCookie:
  "wf_jar jar \<Longrightarrow> cookie_name_ok n \<Longrightarrow> wf_jar (setCookie p n v days jar)"
  by (simp add: setCookie_eq wf_jar_store_cookie wf_jar_stored wf_jar_remove_cookie)

lemma getCookie_setCookie:
  assumes "wf_jar jar" "cookie_name_ok n" "0 < days"
  shows "getCookie n (setCookie p n v days jar) =
     Value (takeWhile (\<lambda>c. c \<noteq> CHR ''='')
              (trimEnd (trim_wsp (takeWhile (\<lambda>c. c \<noteq> CHR '';'') v))))"
proof -
  from assms(2) have "n \<noteq> []" by (simp add: cookie_name_ok_def)
  with wf_jar_setCookie [OF assms(1,2), of p v days]
  have "getCookie n (setCookie p n v days jar) =
     (case map_of (setCookie p n v days jar) n of None \<Rightarrow> Null
      | Some w \<Rightarrow> Value (takeWhile (\<lambda>c. c \<noteq> CHR ''='') (trimEnd w)))"
    by (rule getCookie_wf)
  with assms(2,3) show ?thesis
    by (simp add: setCookie_eq map_of_store_cookie)
qed

lemma takeWhile_length_eq:
  assumes "length (takeWhile P t) = length t"
  shows "takeWhile P t = t"
proof -
  have "takeWhile P t = take (length (takeWhile P t)) t"
    by (rule takeWhile_eq_take)
  also have "\<dots> = t"
    by (simp only: assms take_all order_refl)
  finally show ?thesis .
qed

lemma dropWhile_length_eq:
  assumes "length (dropWhile P t) = length t"
  shows "dropWhile P t = t"
proof -
  have "length (takeWhile P t @ dropWhile P t) = length t"
    by (simp only: takeWhile_dropWhile_id)
  with assms have "takeWhile P t = []"
    by (simp only: length_append) simp
  with takeWhile_dropWhile_id [of P t] show ?thesis
    by (simp only: append_Nil)
qed

lemma length_trimEnd: "length (trimEnd t) \<le> length t"
  using length_dropWhile_le [of js_space "rev t"] by (simp add: trimEnd_def)

lemma length_trim_wsp: "length (trim_wsp t) \<le> length t"
  using length_dropWhile_le [of wsp "rev (dropWhile wsp t)"] length_dropWhile_le [of wsp t]
  by (simp add: trim_wsp_def)

lemma trimEnd_length_eq: "length (trimEnd t) = length t \<Longrightarrow> trimEnd t = t"
  using dropWhile_length_eq [of js_space "rev t"] by (simp add: trimEnd_def)

lemma trim_wsp_length_eq:
  assumes "length (trim_wsp t) = length t"
  shows "trim_wsp t = t"
proof -
  have "length (dropWhile wsp (rev (dropWhile wsp t))) \<le> length (dropWhile wsp t)"
    using length_dropWhile_le [of wsp "rev (dropWhile wsp t)"] by simp
  with assms length_dropWhile_le [of wsp t] have 1: "length (dropWhile wsp t) = length t"
    by (simp add: trim_wsp_def)
  then have 2: "dropWhile wsp t = t" by (rule dropWhile_length_eq)
  with assms have "length (dropWhile wsp (rev t)) = length (rev t)"
    by (simp add: trim_wsp_def)
  then have "dropWhile wsp (rev t) = rev t" by (rule dropWhile_length_eq)
  with 2 show ?thesis by (simp add: trim_wsp_def)
qed

lemma read_back_eq_iff:
  "takeWhile (\<lambda>c. c \<noteq> CHR ''='') (trimEnd (trim_wsp (takeWhile (\<lambda>c. c \<noteq> CHR '';'') v))) = v
   \<longleftrightarrow> CHR ''='' \<notin> set v \<and> CHR '';'' \<notin> set v \<and> trim_wsp v = v \<and> trimEnd v = v"
  (is "?d = v \<longleftrightarrow> ?ok")
proof
  assume ?ok
  then have a: "takeWhile (\<lambda>c. c \<noteq> CHR '';'') v = v" and d: "takeWhile (\<lambda>c. c \<noteq> CHR ''='') v = v"
    by auto
  from \<open>?ok\<close> have b: "trim_wsp v = v" and c: "trimEnd v = v"
    by simp_all
  show "?d = v" by (simp only: a b c d)
next
  let ?a = "takeWhile (\<lambda>c. c \<noteq> CHR '';'') v"
  let ?b = "trim_wsp ?a"
  let ?c = "trimEnd ?b"
  assume eq: "?d = v"
  have "length ?d \<le> length ?c" by (rule length_takeWhile_le)
  moreover have "length ?c \<le> length ?b" by (rule length_trimEnd)
  moreover have "length ?b \<le> length ?a" by (rule length_trim_wsp)
  moreover have "length ?a \<le> length v" by (rule length_takeWhile_le)
  moreover from eq have "length ?d = length v" by simp
  ultimately have len: "length ?a = length v" "length ?b = length ?a" "length ?c = length ?b"
    "length ?d = length ?c"
    by linarith+
  from len(1) have a: "?a = v" by (rule takeWhile_length_eq)
  from len(2) have b: "?b = ?a" by (rule trim_wsp_length_eq)
  from len(3) have c: "?c = ?b" by (rule trimEnd_length_eq)
  from len(4) have d: "?d = ?c" by (rule takeWhile_length_eq)
  have b': "trim_wsp v = v" using b unfolding a .
  have c': "trimEnd v = v" using c unfolding a b' .
  have d': "takeWhile (\<lambda>c. c \<noteq> CHR ''='') v = v" using d unfolding a b' c' .
  from a have "\<forall>x \<in> set v. x \<noteq> CHR '';''" by simp
  then have "CHR '';'' \<notin> set v" by blast
  moreover from d' have "\<forall>x \<in> set v. x \<noteq> CHR ''=''" by simp
  then have "CHR ''='' \<notin> set v" by blast
  moreover note b' c'
  ultimately show ?ok by simp
qed

lemma dropWhile_keeps_member: "c \<in> set t \<Longrightarrow> \<not> P c \<Longrightarrow> c \<in> set (dropWhile P t)"
  by (induction t) auto

lemma trimEnd_trim_wsp_nonempty:
  assumes "c \<in> set t" "\<not> js_space c"
  shows "trimEnd (trim_wsp t) \<noteq> []"
proof -
  from assms(2) have nw: "\<not> wsp c" using wsp_js_space by blast
  from assms(1) nw have "c \<in> set (dropWhile wsp t)" by (rule dropWhile_keeps_member)
  then have "c \<in> set (rev (dropWhile wsp t))" by simp
  then have "c \<in> set (dropWhile wsp (rev (dropWhile wsp t)))" using nw by (rule dropWhile_keeps_member)
  then have "c \<in> set (trim_wsp t)" by (simp add: trim_wsp_def)
  then have "c \<in> set (rev (trim_wsp t))" by simp
  then have "c \<in> set (dropWhile js_space (rev (trim_wsp t)))" using assms(2) by (rule dropWhile_keeps_member)
  then have "c \<in> set (trimEnd (trim_wsp t))" by (simp add: trimEnd_def)
  then show ?thesis by auto
qed

subsection \<open>The cookies of the credential store\<close>

lemma cookie_name_ok_tokens: "cookie_name_ok ''access_token''" "cookie_name_ok ''refresh_token''"
  by (simp_all add: cookie_name_ok_def js_space_def)

lemma wf_jar_Nil: "wf_jar []"
  by (simp add: wf_jar_def)

lemma set_trimEnd: "set (trimEnd t) \<subseteq> set t"
  using set_dropWhileD [of _ js_space "rev t"] by (auto simp add: trimEnd_def)

lemma takeWhile_all: "c \<notin> set t \<Longrightarrow> takeWhile (\<lambda>x. x \<noteq> c) t = t"
  by (induction t) auto

lemma saved_cookies:
  "cookies (saveAuthData p a b) =
     store_cookie ''refresh_token'' (trim_wsp (takeWhile (\<lambda>c. c \<noteq> CHR '';'') (refresh a)))
       (store_cookie ''access_token'' (trim_wsp (takeWhile (\<lambda>c. c \<noteq> CHR '';'') (access a)))
          (cookies b))"
  by (simp add: saveAuthData_def Let_def setCookie_eq cookie_name_ok_tokens split: option.splits)

lemma wf_jar_saved: "wf_jar (cookies b) \<Longrightarrow> wf_jar (cookies (saveAuthData p a b))"
  by (simp add: saved_cookies wf_jar_store_cookie wf_jar_stored cookie_name_ok_tokens)

lemma getCookie_access_saved:
  assumes "wf_jar (cookies b)"
  shows "getCookie ''access_token'' (cookies (saveAuthData p a b)) =
     Value (takeWhile (\<lambda>c. c \<noteq> CHR ''='')
              (trimEnd (trim_wsp (takeWhile (\<lambda>c. c \<noteq> CHR '';'') (access a)))))"
proof -
  have "getCookie ''access_token'' (cookies (saveAuthData p a b)) =
     (case map_of (cookies (saveAuthData p a b)) ''access_token'' of None \<Rightarrow> Null
      | Some w \<Rightarrow> Value (takeWhile (\<lambda>c. c \<noteq> CHR ''='') (trimEnd w)))"
    by (rule getCookie_wf [OF wf_jar_saved [OF assms]]) simp
  then show ?thesis
    by (simp add: saved_cookies map_of_store_cookie)
qed

lemma cleared_cookies:
  "cookies (clearAuthData b) =
     filter (\<lambda>(n, v). n \<noteq> ''refresh_token'') (filter (\<lambda>(n, v). n \<noteq> ''access_token'') (cookies b))"
  by (simp add: clearAuthData_def Let_def deleteCookie_eq cookie_name_ok_tokens)

lemma not_authenticated_cleared:
  assumes "wf_jar (cookies b)"
  shows "\<not> isAuthenticated (clearAuthData b)"
proof -
  from assms have "wf_jar (cookies (clearAuthData b))"
    by (simp add: cleared_cookies wf_jar_remove_cookie)
  then have "getCookie ''access_token'' (cookies (clearAuthData b)) =
     (case map_of (cookies (clearAuthData b)) ''access_token'' of None \<Rightarrow> Null
      | Some w \<Rightarrow> Value (takeWhile (\<lambda>c. c \<noteq> CHR ''='') (trimEnd w)))"
    by (rule getCookie_wf) simp
  moreover have "map_of (cookies (clearAuthData b)) ''access_token'' = None"
    by (simp only: cleared_cookies map_of_remove_cookie) simp
  ultimately show ?thesis
    by (simp add: isAuthenticated_def)
qed

subsection \<open>Error responses\<close>

text \<open>
  What \<open>apiRequest\<close> returns, whatever the request: a failure of \<open>fetch\<close> or of
  \<open>response.json()\<close> is rethrown as it is, on a success status as on an error status; a
  success status returns the parsed body; an error status with a parsed body other than
  \<open>null\<close> throws an \<open>Error\<close> whose message is the text of the body's truthy \<open>detail\<close>, else
  of its truthy \<open>message\<close>, else \<open>API request failed\<close>, unless that value has no text: then
  the \<open>TypeError\<close> of the conversion is thrown. A \<open>detail\<close> that is a text and not empty is
  the message.
\<close>

lemma apiRequest_outcomes:
  "apiRequest (\<lambda>req. Inl e) base jar endpoint options = Inl (Raised e)"
  "apiRequest (\<lambda>req. Inr \<lparr>ok = k, json_body = Inl e\<rparr>) base jar endpoint options = Inl (Raised e)"
  "apiRequest (\<lambda>req. Inr \<lparr>ok = True, json_body = Inr data\<rparr>) base jar endpoint options = Inr data"
  "data \<noteq> JNull \<Longrightarrow>
     apiRequest (\<lambda>req. Inr \<lparr>ok = False, json_body = Inr data\<rparr>) base jar endpoint options =
       Inl (case ToString
              (case data of
                 JObj ms \<Rightarrow>
                   (case map_of ms ''detail'' of
                      Some d \<Rightarrow> if truthy d then d else
                        (case map_of ms ''message'' of
                           Some m \<Rightarrow> if truthy m then m else JStr ''API request failed''
                         | None \<Rightarrow> JStr ''API request failed'')
                    | None \<Rightarrow>
                        (case map_of ms ''message'' of
                           Some m \<Rightarrow> if truthy m then m else JStr ''API request failed''
                         | None \<Rightarrow> JStr ''API request failed''))
               | _ \<Rightarrow> JStr ''API request failed'') of
              None \<Rightarrow> JsNoPrimitive
            | Some msg \<Rightarrow> JsError msg)"
  "map_of ms ''detail'' = Some (JStr t) \<Longrightarrow> t \<noteq> [] \<Longrightarrow>
     apiRequest (\<lambda>req. Inr \<lparr>ok = False, json_body = Inr (JObj ms)\<rparr>) base jar endpoint options =
       Inl (JsError t)"
  by (auto simp add: apiRequest_def Let_def detail_or_message_def message_or_generic_def
      get_property_def split: json.splits option.splits)

text \<open>
  C6. An error response whose parsed body is \<open>null\<close> has no \<open>detail\<close> and no \<open>message\<close>, and
  \<open>apiRequest\<close> does not fail with the generic message \<open>API request failed\<close>: reading
  \<open>data.detail\<close> throws, and the caller gets this \<open>TypeError\<close>, for every request.
\<close>

theorem apiRequest_null_error_body:
  "apiRequest (\<lambda>req. Inr \<lparr>ok = False, json_body = Inr JNull\<rparr>) base jar endpoint options
     = Inl (JsTypeError ''detail'')"
  by (simp add: apiRequest_def Let_def detail_or_message_def get_property_def)

theorem apiRequest_null_error_body_witness:
  "apiRequest (\<lambda>req. Inr \<lparr>ok = False, json_body = Inr JNull\<rparr>) ''http://localhost:8000'' []
     ''/api/users/agent/login/'' \<lparr>init_method = Some ''POST'', init_body = None, init_headers = []\<rparr>
     = (Inl (JsTypeError ''detail'') :: string thrown + json)"
  using apiRequest_null_error_body [of "''http://localhost:8000''" "[]" "''/api/users/agent/login/''"
      "\<lparr>init_method = Some ''POST'', init_body = None, init_headers = []\<rparr>"]
  by simp

subsection \<open>Saving and clearing the credentials\<close>

text \<open>
  C7, as stated, fails: an access token that is not empty can be stored as the empty
  value. The token of one space is trimmed away, and \<open>isAuthenticated\<close> is false after the
  save.
\<close>

theorem blank_token_not_authenticated:
  "\<not> isAuthenticated
       (saveAuthData example_platform \<lparr>access = '' '', refresh = ''B'', user = Some bob\<rparr>
          \<lparr>cookies = [], localStorage = Map.empty\<rparr>)"
  by (simp add: isAuthenticated_def getCookie_access_saved wf_jar_Nil trim_wsp_def wsp_def
      trimEnd_def)

text \<open>
  C7, amended. For credentials whose access token has no \<open>=\<close>, no \<open>;\<close> and a character
  that is not white space, saved into a well-formed cookie store: after the save
  \<open>isAuthenticated\<close> is true, and a truthy profile that \<open>JSON.parse\<close> restores from its
  \<open>JSON.stringify\<close> text is read back as it was saved; after a clear, \<open>isAuthenticated\<close> is
  false.
\<close>

theorem saveAuthData_authenticates:
  assumes "wf_jar (cookies b)" "CHR ''='' \<notin> set (access a)" "CHR '';'' \<notin> set (access a)"
    "\<exists>c \<in> set (access a). \<not> js_space c"
  shows "isAuthenticated (saveAuthData p a b)
   \<and> (user a = Some u \<and> truthy u \<and> JSON_stringify p u \<noteq> []
        \<and> JSON_parse p (JSON_stringify p u) = Inr u \<longrightarrow>
        getUserData p (saveAuthData p a b) = Inr u)
   \<and> \<not> isAuthenticated (clearAuthData (saveAuthData p a b))
   \<and> \<not> isAuthenticated (clearAuthData b)"
proof -
  let ?t = "trimEnd (trim_wsp (access a))"
  from assms(4) have ne: "?t \<noteq> []"
    using trimEnd_trim_wsp_nonempty by blast
  have "set ?t \<subseteq> set (access a)"
    using set_trimEnd [of "trim_wsp (access a)"] set_trim_wsp [of "access a"] by blast
  with assms(2) have "CHR ''='' \<notin> set ?t" by blast
  then have tw: "takeWhile (\<lambda>c. c \<noteq> CHR ''='') ?t = ?t" by (rule takeWhile_all)
  from assms(3) have sc: "takeWhile (\<lambda>c. c \<noteq> CHR '';'') (access a) = access a"
    by (rule takeWhile_all)
  have "getCookie ''access_token'' (cookies (saveAuthData p a b)) = Value ?t"
    unfolding getCookie_access_saved [OF assms(1)] sc tw ..
  with ne have 1: "isAuthenticated (saveAuthData p a b)"
    by (simp add: isAuthenticated_def)
  have 2: "user a = Some u \<and> truthy u \<and> JSON_stringify p u \<noteq> []
        \<and> JSON_parse p (JSON_stringify p u) = Inr u \<longrightarrow>
        getUserData p (saveAuthData p a b) = Inr u"
    by (simp add: getUserData_def saveAuthData_def Let_def)
  from 1 2 not_authenticated_cleared [OF assms(1)]
    not_authenticated_cleared [OF wf_jar_saved [OF assms(1)], of p a]
  show ?thesis by blast
qed

theorem saveAuthData_authenticates_witness:
  "isAuthenticated
     (saveAuthData example_platform \<lparr>access = ''A'', refresh = ''B'', user = Some bob\<rparr>
        \<lparr>cookies = [], localStorage = Map.empty\<rparr>)
   \<and> getUserData example_platform
       (saveAuthData example_platform \<lparr>access = ''A'', refresh = ''B'', user = Some bob\<rparr>
          \<lparr>cookies = [], localStorage = Map.empty\<rparr>) = Inr bob
   \<and> \<not> isAuthenticated
       (clearAuthData
          (saveAuthData example_platform \<lparr>access = ''A'', refresh = ''B'', user = Some bob\<rparr>
             \<lparr>cookies = [], localStorage = Map.empty\<rparr>))"
  using saveAuthData_authenticates [of "\<lparr>cookies = [], localStorage = Map.empty\<rparr>"
      "\<lparr>access = ''A'', refresh = ''B'', user = Some bob\<rparr>" example_platform bob]
  by (simp add: wf_jar_Nil js_space_def example_platform_def bob_def bob_text_def)

subsection \<open>Reading the profile\<close>

text \<open>
  C8, as stated, fails: a stored text that is not JSON makes \<open>getUserData\<close> throw what
  \<open>JSON.parse\<close> throws.
\<close>

theorem getUserData_invalid_throws:
  "getUserData example_platform \<lparr>cookies = [], localStorage = [''user'' \<mapsto> ''{bad'']\<rparr>
     = Inl ''SyntaxError''"
  by (simp add: getUserData_def example_platform_def bob_text_def)

text \<open>
  C8, amended. \<open>getUserData\<close> returns \<open>null\<close> when no profile is stored or the stored text is
  empty; otherwise it returns what \<open>JSON.parse\<close> makes of the stored text, and throws what
  \<open>JSON.parse\<close> throws when the text is not valid.
\<close>

theorem getUserData_cases:
  "(localStorage b ''user'' = None \<longrightarrow> getUserData p b = Inr JNull)
   \<and> (localStorage b ''user'' = Some [] \<longrightarrow> getUserData p b = Inr JNull)
   \<and> (localStorage b ''user'' = Some t \<and> t \<noteq> [] \<longrightarrow> getUserData p b = JSON_parse p t)
   \<and> (localStorage b ''user'' = Some t \<and> t \<noteq> [] \<and> JSON_parse p t = Inr v \<longrightarrow>
        getUserData p b = Inr v)
   \<and> (localStorage b ''user'' = Some t \<and> t \<noteq> [] \<and> JSON_parse p t = Inl e \<longrightarrow>
        getUserData p b = Inl e)"
  by (simp add: getUserData_def)

theorem getUserData_cases_witness:
  "getUserData example_platform \<lparr>cookies = [], localStorage = Map.empty\<rparr> = Inr JNull
   \<and> getUserData example_platform \<lparr>cookies = [], localStorage = [''user'' \<mapsto> []]\<rparr> = Inr JNull
   \<and> getUserData example_platform \<lparr>cookies = [], localStorage = [''user'' \<mapsto> bob_text]\<rparr> = Inr bob
   \<and> getUserData example_platform \<lparr>cookies = [], localStorage = [''user'' \<mapsto> ''{bad'']\<rparr>
       = Inl ''SyntaxError''"
  using getUserData_cases [of "\<lparr>cookies = [], localStorage = Map.empty\<rparr>" example_platform]
    getUserData_cases [of "\<lparr>cookies = [], localStorage = [''user'' \<mapsto> []]\<rparr>" example_platform]
    getUserData_cases [of "\<lparr>cookies = [], localStorage = [''user'' \<mapsto> bob_text]\<rparr>" example_platform
      bob_text bob]
    getUserData_cases [of "\<lparr>cookies = [], localStorage = [''user'' \<mapsto> ''{bad'']\<rparr>" example_platform
      "''{bad''" _ "''SyntaxError''"]
  by (simp add: example_platform_def bob_text_def)

subsection \<open>Reading a cookie back\<close>

text \<open>
  C9, as stated, fails: a value with no \<open>=\<close> and no \<open>;\<close> is not always read back as it was
  written. The value \<open>x\<close> followed by a space comes back as \<open>x\<close>.
\<close>

theorem padded_value_not_restored:
  "CHR ''='' \<notin> set ''x '' \<and> CHR '';'' \<notin> set ''x ''
   \<and> getCookie ''t'' (setCookie example_platform ''t'' ''x '' 7 []) = Value ''x''"
  by (simp add: getCookie_setCookie wf_jar_Nil cookie_name_ok_def js_space_def trim_wsp_def
      wsp_def trimEnd_def)

text \<open>
  C9, amended. For a cookie name with no \<open>=\<close>, no \<open>;\<close> and no white space, a positive number
  of days and a well-formed store. For every value with no \<open>;\<close>: \<open>setCookie\<close> stores the
  value trimmed of spaces and tabs; \<open>getCookie\<close> returns the stored value without its
  trailing white space, up to its first \<open>=\<close>; and for the access token \<open>isAuthenticated\<close> and
  the \<open>Authorization\<close> header see the text \<open>getCookie\<close> returns. For every value:
  \<open>getCookie\<close> returns the value that was written exactly when that value has no \<open>=\<close>, no
  \<open>;\<close>, no space or tab at its start and no white space at its end.
\<close>

theorem cookie_round_trip:
  assumes "wf_jar jar" "cookie_name_ok n" "0 < days"
  shows "(CHR '';'' \<notin> set v \<longrightarrow>
        map_of (setCookie p n v days jar) n = Some (trim_wsp v)
        \<and> getCookie n (setCookie p n v days jar) =
            Value (takeWhile (\<lambda>c. c \<noteq> CHR ''='') (trimEnd (trim_wsp v)))
        \<and> (n = ''access_token'' \<longrightarrow>
             isAuthenticated \<lparr>cookies = setCookie p n v days jar, localStorage = ls\<rparr> =
               (takeWhile (\<lambda>c. c \<noteq> CHR ''='') (trimEnd (trim_wsp v)) \<noteq> [])
             \<and> authorization (getCookie n (setCookie p n v days jar)) =
               (if takeWhile (\<lambda>c. c \<noteq> CHR ''='') (trimEnd (trim_wsp v)) = [] then []
                else [(''Authorization'',
                       ''Bearer '' @ takeWhile (\<lambda>c. c \<noteq> CHR ''='') (trimEnd (trim_wsp v)))])))
   \<and> (getCookie n (setCookie p n v days jar) = Value v \<longleftrightarrow>
        CHR ''='' \<notin> set v \<and> CHR '';'' \<notin> set v \<and> trim_wsp v = v \<and> trimEnd v = v)"
proof -
  let ?r = "takeWhile (\<lambda>c. c \<noteq> CHR ''='')
              (trimEnd (trim_wsp (takeWhile (\<lambda>c. c \<noteq> CHR '';'') v)))"
  let ?q = "takeWhile (\<lambda>c. c \<noteq> CHR ''='') (trimEnd (trim_wsp v))"
  have sc: "takeWhile (\<lambda>c. c \<noteq> CHR '';'') v = v" if "CHR '';'' \<notin> set v"
    using that by (rule takeWhile_all)
  from assms(2,3) have 0: "map_of (setCookie p n v days jar) n
      = Some (trim_wsp (takeWhile (\<lambda>c. c \<noteq> CHR '';'') v))"
    by (simp add: setCookie_eq map_of_store_cookie)
  have 1: "map_of (setCookie p n v days jar) n = Some (trim_wsp v)" if "CHR '';'' \<notin> set v"
    using 0 by (simp only: sc [OF that])
  have 2: "getCookie n (setCookie p n v days jar) = Value ?r"
    using assms by (rule getCookie_setCookie)
  have rd: "getCookie n (setCookie p n v days jar) = Value ?q" if "CHR '';'' \<notin> set v"
    using 2 by (simp only: sc [OF that])
  have 3: "getCookie n (setCookie p n v days jar) = Value v \<longleftrightarrow>
        CHR ''='' \<notin> set v \<and> CHR '';'' \<notin> set v \<and> trim_wsp v = v \<and> trimEnd v = v"
    unfolding 2 cookie_value.inject by (rule read_back_eq_iff)
  have 4: "isAuthenticated \<lparr>cookies = setCookie p n v days jar, localStorage = ls\<rparr> = (?q \<noteq> [])"
    if "CHR '';'' \<notin> set v" "n = ''access_token''"
    using rd [OF that(1)] that(2) by (simp add: isAuthenticated_def)
  have 5: "authorization (getCookie n (setCookie p n v days jar)) =
      (if ?q = [] then [] else [(''Authorization'', ''Bearer '' @ ?q)])"
    if "CHR '';'' \<notin> set v"
    unfolding rd [OF that] by (simp add: authorization_def)
  from 1 rd 3 4 5 show ?thesis by blast
qed

theorem cookie_round_trip_witness:
  "getCookie ''access_token'' (setCookie example_platform ''access_token'' ''abc=='' 7 [(''theme'', ''dark'')])
     = Value ''abc''
   \<and> getCookie ''access_token'' (setCookie example_platform ''access_token'' ''abc'' 7 [(''theme'', ''dark'')])
     = Value ''abc''
   \<and> authorization
       (getCookie ''access_token'' (setCookie example_platform ''access_token'' ''abc=='' 7 [(''theme'', ''dark'')]))
     = [(''Authorization'', ''Bearer abc'')]"
  using cookie_round_trip [of "[(''theme'', ''dark'')]" "''access_token''" 7 "''abc==''" example_platform Map.empty]
    cookie_round_trip [of "[(''theme'', ''dark'')]" "''access_token''" 7 "''abc''" example_platform Map.empty]
  by (simp add: wf_jar_def cookie_name_ok_tokens js_space_def trim_wsp_def wsp_def trimEnd_def
      authorization_def)

subsection \<open>Saving without a profile\<close>

text \<open>
  C10. A save whose credentials have no profile (none, or a falsy one) leaves
  \<open>localStorage\<close> as it was, and of the cookies it changes only \<open>access_token\<close> and
  \<open>refresh_token\<close>, which hold the two tokens as the store keeps them.
\<close>

theorem saveAuthData_without_user:
  assumes "user a = None \<or> (\<exists>u. user a = Some u \<and> \<not> truthy u)"
  shows "localStorage (saveAuthData p a b) = localStorage b
   \<and> (\<forall>n. n \<noteq> ''access_token'' \<and> n \<noteq> ''refresh_token'' \<longrightarrow>
         map_of (cookies (saveAuthData p a b)) n = map_of (cookies b) n)
   \<and> map_of (cookies (saveAuthData p a b)) ''refresh_token''
       = Some (trim_wsp (takeWhile (\<lambda>c. c \<noteq> CHR '';'') (refresh a)))
   \<and> map_of (cookies (saveAuthData p a b)) ''access_token''
       = Some (trim_wsp (takeWhile (\<lambda>c. c \<noteq> CHR '';'') (access a)))"
  using assms
  by (auto simp add: saveAuthData_def Let_def setCookie_eq cookie_name_ok_tokens
      map_of_store_cookie)

theorem saveAuthData_without_user_witness:
  "localStorage (saveAuthData example_platform \<lparr>access = ''A'', refresh = ''B'', user = None\<rparr>
       \<lparr>cookies = [(''theme'', ''dark'')], localStorage = [''user'' \<mapsto> bob_text]\<rparr>) ''user''
     = Some bob_text
   \<and> cookies (saveAuthData example_platform \<lparr>access = ''A'', refresh = ''B'', user = None\<rparr>
       \<lparr>cookies = [(''theme'', ''dark'')], localStorage = [''user'' \<mapsto> bob_text]\<rparr>)
     = [(''theme'', ''dark''), (''access_token'', ''A''), (''refresh_token'', ''B'')]"
  using saveAuthData_without_user [of "\<lparr>access = ''A'', refresh = ''B'', user = None\<rparr>"
      example_platform "\<lparr>cookies = [(''theme'', ''dark'')], localStorage = [''user'' \<mapsto> bob_text]\<rparr>"]
  by (simp add: saveAuthData_def Let_def setCookie_eq cookie_name_ok_tokens trim_wsp_def wsp_def)

end
